theory Spec2Isabelle
  imports Complex_Main "HOL-Library.Sublist"
begin

section \<open>Python strings\<close>

text \<open>
  A Python \<open>str\<close> is modelled as a \<open>string\<close> whose characters are the code points
  0 to 255. The character tables below are those of CPython for that range:
  \<open>str.isspace\<close> (used by \<open>str.split()\<close>, \<open>str.strip()\<close> and \<open>\s\<close>), \<open>str.lower\<close>,
  and the word characters of \<open>\w\<close> and \<open>\b\<close>.
\<close>

definition py_isspace :: "char \<Rightarrow> bool" where
  "py_isspace c = (let n = (of_char c :: nat) in
     (9 \<le> n \<and> n \<le> 13) \<or> (28 \<le> n \<and> n \<le> 32) \<or> n = 133 \<or> n = 160)"

definition py_isdecimal :: "char \<Rightarrow> bool" where
  "py_isdecimal c = (let n = (of_char c :: nat) in 48 \<le> n \<and> n \<le> 57)"

definition py_isword :: "char \<Rightarrow> bool" where
  "py_isword c = (let n = (of_char c :: nat) in
     (48 \<le> n \<and> n \<le> 57) \<or> (65 \<le> n \<and> n \<le> 90) \<or> n = 95 \<or> (97 \<le> n \<and> n \<le> 122) \<or>
     n = 170 \<or> n = 178 \<or> n = 179 \<or> n = 181 \<or> n = 185 \<or> n = 186 \<or>
     (188 \<le> n \<and> n \<le> 190) \<or> (192 \<le> n \<and> n \<le> 214) \<or> (216 \<le> n \<and> n \<le> 246) \<or>
     (248 \<le> n \<and> n \<le> 255))"

definition py_lower_char :: "char \<Rightarrow> char" where
  "py_lower_char c = (let n = (of_char c :: nat) in
     if (65 \<le> n \<and> n \<le> 90) \<or> (192 \<le> n \<and> n \<le> 214) \<or> (216 \<le> n \<and> n \<le> 222)
     then char_of (n + 32) else c)"

text \<open>\<open>s.lower()\<close>\<close>

definition py_lower :: "string \<Rightarrow> string" where
  "py_lower s = map py_lower_char s"

text \<open>\<open>s.split()\<close>: the maximal runs of non-whitespace characters, in order.\<close>

fun split_ws :: "string \<Rightarrow> string \<Rightarrow> string list" where
  "split_ws cur [] = (if cur = [] then [] else [cur])"
| "split_ws cur (c # cs) =
     (if py_isspace c then (if cur = [] then split_ws [] cs else cur # split_ws [] cs)
      else split_ws (cur @ [c]) cs)"

definition py_split :: "string \<Rightarrow> string list" where
  "py_split s = split_ws [] s"


text \<open>\<open>sub in s\<close> on strings: \<open>sub\<close> occurs in \<open>s\<close> as a contiguous piece.\<close>

fun py_in :: "string \<Rightarrow> string \<Rightarrow> bool" where
  "py_in sub [] = (sub = [])"
| "py_in sub (c # cs) = (prefix sub (c # cs) \<or> py_in sub cs)"

text \<open>\<open>sep.join(xs)\<close>\<close>

fun py_join :: "string \<Rightarrow> string list \<Rightarrow> string" where
  "py_join sep [] = []"
| "py_join sep [x] = x"
| "py_join sep (x # y # ys) = x @ sep @ py_join sep (y # ys)"

text \<open>\<open>set(s.lower().split())\<close>, the lowercased word set of both heuristics.\<close>

definition word_set :: "string \<Rightarrow> string set" where
  "word_set s = set (py_split (py_lower s))"

section \<open>Regular expressions\<close>

text \<open>
  The compiled pattern objects of Python's \<open>re\<close> module, for the constructs the
  repository's own patterns use: literals, \<open>.\<close>, character classes with ranges and the
  categories \<open>\d\<close>, \<open>\s\<close>, \<open>\w\<close>, the assertion \<open>\b\<close>, concatenation, alternation and the
  repetitions \<open>*\<close>, \<open>+\<close>, \<open>?\<close>, \<open>{m}\<close>, \<open>{m,}\<close>, \<open>{m,n}\<close> (\<open>Rep m None\<close> is unbounded above;
  \<open>re.compile\<close> rejects \<open>{m,n}\<close> with \<open>n < m\<close>, so \<open>Rep m (Some n)\<close> is read with \<open>m \<le> n\<close>).
  No flag is set: matching is case-sensitive and \<open>.\<close> excludes the newline.
\<close>

datatype citem = CChar char | CRange char char | CDigit | CSpace | CWord

datatype regex =
    Eps
  | Lit char
  | Dot
  | Cls "citem list"
  | NCls "citem list"
  | WordB
  | Seq regex regex
  | Alt regex regex
  | Rep nat "nat option" regex

fun citem_matches :: "char \<Rightarrow> citem \<Rightarrow> bool" where
  "citem_matches c (CChar a) = (c = a)"
| "citem_matches c (CRange a b) =
     ((of_char a :: nat) \<le> of_char c \<and> (of_char c :: nat) \<le> of_char b)"
| "citem_matches c CDigit = py_isdecimal c"
| "citem_matches c CSpace = py_isspace c"
| "citem_matches c CWord = py_isword c"

text \<open>One character at position \<open>i\<close> satisfying \<open>P\<close>: the match ends at \<open>i + 1\<close>.\<close>

definition at_char :: "(char \<Rightarrow> bool) \<Rightarrow> string \<Rightarrow> nat \<Rightarrow> nat list" where
  "at_char P s i = (if i < length s \<and> P (s ! i) then [Suc i] else [])"

text \<open>\<open>\b\<close> holds at \<open>i\<close> when exactly one of the characters around \<open>i\<close> is a word character.\<close>

definition word_boundary :: "string \<Rightarrow> nat \<Rightarrow> bool" where
  "word_boundary s i =
     ((0 < i \<and> i \<le> length s \<and> py_isword (s ! (i - 1))) \<noteq> (i < length s \<and> py_isword (s ! i)))"

text \<open>
  Repetition works on the list of positions reached so far: \<open>steps_exact f k\<close> applies the
  body exactly \<open>k\<close> times, \<open>steps_upto f k\<close> between 0 and \<open>k\<close> times.
\<close>

fun steps_exact :: "(nat \<Rightarrow> nat list) \<Rightarrow> nat \<Rightarrow> nat list \<Rightarrow> nat list" where
  "steps_exact f 0 ps = ps"
| "steps_exact f (Suc k) ps = steps_exact f k (remdups (concat (map f ps)))"

fun steps_upto :: "(nat \<Rightarrow> nat list) \<Rightarrow> nat \<Rightarrow> nat list \<Rightarrow> nat list" where
  "steps_upto f 0 ps = ps"
| "steps_upto f (Suc k) ps = remdups (ps @ steps_upto f k (remdups (concat (map f ps))))"

text \<open>
  \<open>re_ends r s i\<close> lists the positions where a match of \<open>r\<close> that starts at position \<open>i\<close>
  of \<open>s\<close> can end. The engine of \<open>re\<close> backtracks over the same alternatives, so it finds
  a match at \<open>i\<close> exactly when this list is not empty. An unbounded repetition needs at
  most \<open>length s\<close> rounds that each consume a character.
\<close>

primrec re_ends :: "regex \<Rightarrow> string \<Rightarrow> nat \<Rightarrow> nat list" where
  "re_ends Eps s i = [i]"
| "re_ends (Lit a) s i = at_char (\<lambda>c. c = a) s i"
| "re_ends Dot s i = at_char (\<lambda>c. c \<noteq> CHR 0x0A) s i"
| "re_ends (Cls items) s i = at_char (\<lambda>c. list_ex (citem_matches c) items) s i"
| "re_ends (NCls items) s i = at_char (\<lambda>c. \<not> list_ex (citem_matches c) items) s i"
| "re_ends WordB s i = (if word_boundary s i then [i] else [])"
| "re_ends (Seq a b) s i = remdups (concat (map (re_ends b s) (re_ends a s i)))"
| "re_ends (Alt a b) s i = remdups (re_ends a s i @ re_ends b s i)"
| "re_ends (Rep lo hi r) s i =
     steps_upto (re_ends r s) (case hi of None \<Rightarrow> length s | Some h \<Rightarrow> h - lo)
       (steps_exact (re_ends r s) lo [i])"

text \<open>\<open>pattern.match(s)\<close> is truthy when a match starts at position 0.\<close>

definition re_match :: "regex \<Rightarrow> string \<Rightarrow> bool" where
  "re_match r s = (re_ends r s 0 \<noteq> [])"

text \<open>\<open>re.search(pattern, s)\<close> is truthy when a match starts at some position of \<open>s\<close>.\<close>

definition re_search :: "regex \<Rightarrow> string \<Rightarrow> bool" where
  "re_search r s = list_ex (\<lambda>i. re_ends r s i \<noteq> []) [0..<Suc (length s)]"

text \<open>A sequence of pieces, and the postfix operators.\<close>

fun seqs :: "regex list \<Rightarrow> regex" where
  "seqs [] = Eps"
| "seqs [r] = r"
| "seqs (r # rs) = Seq r (seqs rs)"

abbreviation Star :: "regex \<Rightarrow> regex" where "Star r \<equiv> Rep 0 None r"
abbreviation Plus :: "regex \<Rightarrow> regex" where "Plus r \<equiv> Rep 1 None r"
abbreviation Opt :: "regex \<Rightarrow> regex" where "Opt r \<equiv> Rep 0 (Some 1) r"

section \<open>What a pattern matches\<close>

text \<open>
  The meaning of a pattern, apart from any way of computing it: \<open>re_span r s i j\<close> says
  that \<open>r\<close> matches the piece of \<open>s\<close> from position \<open>i\<close> up to position \<open>j\<close>. A
  concatenation composes the two relations, a repetition iterates the relation of its body
  a permitted number of times.
\<close>

primrec re_span :: "regex \<Rightarrow> string \<Rightarrow> nat \<Rightarrow> nat \<Rightarrow> bool" where
  "re_span Eps s = (\<lambda>i j. j = i)"
| "re_span (Lit a) s = (\<lambda>i j. i < length s \<and> s ! i = a \<and> j = Suc i)"
| "re_span Dot s = (\<lambda>i j. i < length s \<and> s ! i \<noteq> CHR 0x0A \<and> j = Suc i)"
| "re_span (Cls items) s =
     (\<lambda>i j. i < length s \<and> (\<exists>it\<in>set items. citem_matches (s ! i) it) \<and> j = Suc i)"
| "re_span (NCls items) s =
     (\<lambda>i j. i < length s \<and> \<not> (\<exists>it\<in>set items. citem_matches (s ! i) it) \<and> j = Suc i)"
| "re_span WordB s = (\<lambda>i j. word_boundary s i \<and> j = i)"
| "re_span (Seq a b) s = re_span a s OO re_span b s"
| "re_span (Alt a b) s = (\<lambda>i j. re_span a s i j \<or> re_span b s i j)"
| "re_span (Rep lo hi r) s =
     (\<lambda>i j. \<exists>n. lo \<le> n \<and> (case hi of None \<Rightarrow> True | Some h \<Rightarrow> n \<le> h) \<and> (re_span r s ^^ n) i j)"

text \<open>The patterns that \<open>re.compile\<close> accepts: no repetition has its bounds the wrong way round.\<close>

primrec wf_regex :: "regex \<Rightarrow> bool" where
  "wf_regex Eps = True"
| "wf_regex (Lit a) = True"
| "wf_regex Dot = True"
| "wf_regex (Cls items) = True"
| "wf_regex (NCls items) = True"
| "wf_regex WordB = True"
| "wf_regex (Seq a b) = (wf_regex a \<and> wf_regex b)"
| "wf_regex (Alt a b) = (wf_regex a \<and> wf_regex b)"
| "wf_regex (Rep lo hi r) = ((case hi of None \<Rightarrow> True | Some h \<Rightarrow> lo \<le> h) \<and> wf_regex r)"

text \<open>
  A relation on positions advances when it never goes backwards and, where it moves, stays
  within the string.
\<close>

definition advances :: "string \<Rightarrow> (nat \<Rightarrow> nat \<Rightarrow> bool) \<Rightarrow> bool" where
  "advances s R = (\<forall>i j. R i j \<longrightarrow> i \<le> j \<and> (i < j \<longrightarrow> j \<le> length s))"

section \<open>Python values and exceptions\<close>

text \<open>
  The dynamically typed values that flow through the mocks and the schema validation:
  what \<open>json.loads\<close> returns, what a keyword argument or a message field may hold.
  A \<open>float\<close> is carried as the rational it stands for; a \<open>dict\<close> with string keys is an
  association list in insertion order, read with \<open>map_of\<close>.
\<close>

datatype pyval =
    PNone
  | PBool bool
  | PInt int
  | PFloat rat
  | PStr string
  | PList "pyval list"
  | PDict "(string \<times> pyval) list"

type_synonym pydict = "(string \<times> pyval) list"

text \<open>
  An f-string is kept as its pieces: literal text, a float formatted with \<open>:.2f\<close>, and a
  float formatted with its \<open>repr\<close>. The exceptions are those the modelled code can raise;
  \<open>Raised\<close> is an exception of a user's matcher function, and the texts of the library's
  own errors are shortened.
\<close>

datatype fpart = Txt string | Fix2 rat | Flt rat

datatype py_error =
    AssertionError "fpart list"
  | ValueError string
  | TypeError string
  | AttributeError string
  | ZeroDivisionError
  | ReError string
  | Raised string

section \<open>mocks.py: MockResponse and MockLLM\<close>

record MockResponse =
  content :: string
  model :: string
  tokens_used :: int
  cost :: rat
  latency :: rat
  metadata :: pydict

text \<open>\<open>MockResponse(content=c)\<close> with the dataclass defaults.\<close>

definition MockResponse_content :: "string \<Rightarrow> MockResponse" where
  "MockResponse_content c =
     \<lparr>content = c, model = ''gpt-4'', tokens_used = 100, cost = 1 / 100, latency = 1 / 2,
      metadata = []\<rparr>"

text \<open>The argument type \<open>Union[str, MockResponse]\<close> and its \<open>isinstance(response, str)\<close> wrap.\<close>

datatype response_arg = RStr string | RObj MockResponse

fun as_response :: "response_arg \<Rightarrow> MockResponse" where
  "as_response (RStr s) = MockResponse_content s"
| "as_response (RObj r) = r"

text \<open>
  An entry of \<open>self.responses\<close> is a triple whose third component tags the first:
  \<open>False\<close> for an exact prompt, \<open>True\<close> for a compiled pattern, \<open>"function"\<close> for a
  callable. The callable receives the prompt and the keyword arguments; it may raise, and
  otherwise the truth value of its result is used.
\<close>

datatype matcher =
    MExact string
  | MPattern regex
  | MFunction "pyval \<Rightarrow> pydict \<Rightarrow> py_error + bool"

record call =
  call_prompt :: pyval
  call_kwargs :: pydict

record MockLLM =
  responses :: "(matcher \<times> MockResponse) list"
  call_history :: "call list"
  default_response :: response_arg

definition MockLLM_init :: MockLLM where
  "MockLLM_init = \<lparr>responses = [], call_history = [], default_response = RStr ''Mock response''\<rparr>"

definition add_response :: "string \<Rightarrow> response_arg \<Rightarrow> MockLLM \<Rightarrow> MockLLM" where
  "add_response key response st =
     st\<lparr>responses := responses st @ [(MExact key, as_response response)]\<rparr>"

text \<open>
  \<open>re.compile\<close> belongs to the Python library: \<open>re_compile\<close> stands for it, giving the
  compiled pattern or the \<open>re.error\<close> it raises, which leaves the mock untouched.
\<close>

definition add_pattern ::
  "(string \<Rightarrow> py_error + regex) \<Rightarrow> string \<Rightarrow> response_arg \<Rightarrow> MockLLM \<Rightarrow> py_error + MockLLM" where
  "add_pattern re_compile pattern response st =
     (case re_compile pattern of
        Inl e \<Rightarrow> Inl e
      | Inr r \<Rightarrow> Inr (st\<lparr>responses := responses st @ [(MPattern r, as_response response)]\<rparr>))"

definition add_function_response ::
  "(pyval \<Rightarrow> pydict \<Rightarrow> py_error + bool) \<Rightarrow> response_arg \<Rightarrow> MockLLM \<Rightarrow> MockLLM" where
  "add_function_response f response st =
     st\<lparr>responses := responses st @ [(MFunction f, as_response response)]\<rparr>"

definition set_default_response :: "response_arg \<Rightarrow> MockLLM \<Rightarrow> MockLLM" where
  "set_default_response response st = st\<lparr>default_response := RObj (as_response response)\<rparr>"

text \<open>
  One round of the loop of \<open>get_response\<close>: \<open>prompt == matcher\<close> for an exact entry,
  \<open>matcher.match(prompt)\<close> for a pattern (a \<open>TypeError\<close> when the prompt is not a string),
  \<open>matcher(prompt, **kwargs)\<close> for a callable.
\<close>

fun matcher_satisfied :: "matcher \<Rightarrow> pyval \<Rightarrow> pydict \<Rightarrow> py_error + bool" where
  "matcher_satisfied (MExact key) p kw = Inr (p = PStr key)"
| "matcher_satisfied (MPattern r) p kw =
     (case p of
        PStr s \<Rightarrow> Inr (re_match r s)
      | _ \<Rightarrow> Inl (TypeError ''expected string or bytes-like object''))"
| "matcher_satisfied (MFunction f) p kw = f p kw"

fun scan_responses ::
  "(matcher \<times> MockResponse) list \<Rightarrow> pyval \<Rightarrow> pydict \<Rightarrow> py_error + MockResponse option" where
  "scan_responses [] p kw = Inr None"
| "scan_responses ((m, r) # rest) p kw =
     (case matcher_satisfied m p kw of
        Inl e \<Rightarrow> Inl e
      | Inr True \<Rightarrow> Inr (Some r)
      | Inr False \<Rightarrow> scan_responses rest p kw)"

text \<open>
  \<open>get_response\<close> returns the mock as the call leaves it together with the response, or
  with the exception that escaped.
\<close>

definition get_response :: "pyval \<Rightarrow> pydict \<Rightarrow> MockLLM \<Rightarrow> MockLLM \<times> (py_error + MockResponse)" where
  "get_response p kw st =
     (let st' = st\<lparr>call_history := call_history st @ [\<lparr>call_prompt = p, call_kwargs = kw\<rparr>]\<rparr>
      in (st',
          case scan_responses (responses st') p kw of
            Inl e \<Rightarrow> Inl e
          | Inr (Some r) \<Rightarrow> Inr r
          | Inr None \<Rightarrow> Inr (as_response (default_response st'))))"

definition get_call_count :: "MockLLM \<Rightarrow> nat" where
  "get_call_count st = length (call_history st)"

definition get_last_call :: "MockLLM \<Rightarrow> call option" where
  "get_last_call st = (if call_history st \<noteq> [] then Some (last (call_history st)) else None)"

definition reset :: "MockLLM \<Rightarrow> MockLLM" where
  "reset st = st\<lparr>call_history := []\<rparr>"

section \<open>mocks.py: the provider mocks\<close>

text \<open>
  A message is a \<open>dict\<close>. Both providers walk \<open>reversed(messages)\<close> to the first message
  whose \<open>role\<close> is \<open>"user"\<close>.
\<close>

definition last_user :: "pydict list \<Rightarrow> pydict option" where
  "last_user messages = find (\<lambda>msg. map_of msg ''role'' = Some (PStr ''user'')) (rev messages)"

text \<open>\<open>d.get(key, "")\<close>\<close>

definition get_or_empty :: "pydict \<Rightarrow> string \<Rightarrow> pyval" where
  "get_or_empty d key = (case map_of d key of None \<Rightarrow> PStr [] | Some v \<Rightarrow> v)"

text \<open>\<open>OpenAIMock.Chat.Completions.create\<close> takes the content as it is.\<close>

definition openai_user_message :: "pydict list \<Rightarrow> pyval" where
  "openai_user_message messages =
     (case last_user messages of None \<Rightarrow> PStr [] | Some msg \<Rightarrow> get_or_empty msg ''content'')"

text \<open>
  \<open>AnthropicMock.Messages.create\<close> joins a list-valued content:
  \<open>" ".join([c.get("text", "") for c in content])\<close>. The comprehension needs every part to
  be a \<open>dict\<close>, the join every text to be a string.
\<close>

fun part_texts :: "pyval list \<Rightarrow> py_error + pyval list" where
  "part_texts [] = Inr []"
| "part_texts (PDict d # cs) =
     (case part_texts cs of Inl e \<Rightarrow> Inl e | Inr vs \<Rightarrow> Inr (get_or_empty d ''text'' # vs))"
| "part_texts (c # cs) = Inl (AttributeError ''get'')"

fun all_strings :: "pyval list \<Rightarrow> string list option" where
  "all_strings [] = Some []"
| "all_strings (PStr s # vs) = map_option ((#) s) (all_strings vs)"
| "all_strings (v # vs) = None"

definition join_values :: "string \<Rightarrow> pyval list \<Rightarrow> py_error + string" where
  "join_values sep vs =
     (case all_strings vs of
        None \<Rightarrow> Inl (TypeError ''sequence item: expected str instance'')
      | Some ss \<Rightarrow> Inr (py_join sep ss))"

definition anthropic_user_message :: "pydict list \<Rightarrow> py_error + pyval" where
  "anthropic_user_message messages =
     (case last_user messages of
        None \<Rightarrow> Inr (PStr [])
      | Some msg \<Rightarrow>
          (case get_or_empty msg ''content'' of
             PList parts \<Rightarrow>
               (case part_texts parts of
                  Inl e \<Rightarrow> Inl e
                | Inr vs \<Rightarrow> (case join_values '' '' vs of Inl e \<Rightarrow> Inl e | Inr s \<Rightarrow> Inr (PStr s)))
           | c \<Rightarrow> Inr c))"

text \<open>
  The call \<open>self.mock_llm.get_response(user_message, **kwargs)\<close>: a keyword named like a
  parameter that is already bound is a \<open>TypeError\<close> before the body runs.
\<close>

definition call_get_response ::
  "pyval \<Rightarrow> pydict \<Rightarrow> MockLLM \<Rightarrow> MockLLM \<times> (py_error + MockResponse)" where
  "call_get_response p kw st =
     (if ''prompt'' \<in> fst ` set kw \<or> ''self'' \<in> fst ` set kw
      then (st, Inl (TypeError ''got multiple values for argument''))
      else get_response p kw st)"

record ChatCompletion =
  choice_content :: string
  choice_role :: string
  choice_finish_reason :: string
  completion_model :: string
  total_tokens :: int
  prompt_tokens :: int
  completion_tokens :: int

record AnthropicMessage =
  block_text :: string
  message_model :: string
  input_tokens :: int
  output_tokens :: int

definition openai_create ::
  "pydict list \<Rightarrow> pydict \<Rightarrow> MockLLM \<Rightarrow> MockLLM \<times> (py_error + ChatCompletion)" where
  "openai_create messages kw st =
     (case call_get_response (openai_user_message messages) kw st of
        (st', Inl e) \<Rightarrow> (st', Inl e)
      | (st', Inr response) \<Rightarrow>
          (st', Inr \<lparr>choice_content = content response, choice_role = ''assistant'',
                     choice_finish_reason = ''stop'', completion_model = model response,
                     total_tokens = tokens_used response,
                     prompt_tokens = tokens_used response div 2,
                     completion_tokens = tokens_used response div 2\<rparr>))"

definition anthropic_create ::
  "pydict list \<Rightarrow> pydict \<Rightarrow> MockLLM \<Rightarrow> MockLLM \<times> (py_error + AnthropicMessage)" where
  "anthropic_create messages kw st =
     (case anthropic_user_message messages of
        Inl e \<Rightarrow> (st, Inl e)
      | Inr user_message \<Rightarrow>
          (case call_get_response user_message kw st of
             (st', Inl e) \<Rightarrow> (st', Inl e)
           | (st', Inr response) \<Rightarrow>
               (st', Inr \<lparr>block_text = content response, message_model = model response,
                          input_tokens = tokens_used response div 2,
                          output_tokens = tokens_used response div 2\<rparr>)))"

section \<open>assertions.py\<close>

text \<open>
  An assertion returns \<open>Inr ()\<close> when it returns normally and \<open>Inl\<close> of the exception
  otherwise. Floats are compared as the rationals they stand for.
\<close>

definition nl :: string where
  "nl = [CHR 0x0A]"

definition sq :: string where
  "sq = [CHR 0x27]"

text \<open>\<open>_calculate_similarity\<close>\<close>

definition calculate_similarity :: "string \<Rightarrow> string \<Rightarrow> rat" where
  "calculate_similarity str1 str2 =
     (let words1 = word_set str1; words2 = word_set str2
      in if words2 = {} then 0
         else of_nat (card (words1 \<inter> words2)) / of_nat (card words2))"



definition assert_not_contains :: "string \<Rightarrow> string \<Rightarrow> bool \<Rightarrow> py_error + unit" where
  "assert_not_contains output0 unexpected0 case_sensitive =
     (let output = (if \<not> case_sensitive then py_lower output0 else output0);
          unexpected = (if \<not> case_sensitive then py_lower unexpected0 else unexpected0)
      in if \<not> py_in unexpected output then Inr ()
         else Inl (AssertionError
           [Txt (''Unexpected '' @ sq @ unexpected @ sq @ '' found in output.'' @ nl @
                 ''Output: '' @ output)]))"

subsection \<open>JSON and the schema check\<close>

text \<open>
  A schema is a \<open>dict\<close> of which the validation reads three keys: \<open>type\<close> (a string),
  \<open>properties\<close> (a \<open>dict\<close> from property names to schemas) and \<open>required\<close> (a list of
  names). Each is present or absent.
\<close>

datatype schema =
  Schema (schema_type: "string option")
         (schema_properties: "(string \<times> schema) list option")
         (schema_required: "string list option")

text \<open>
  \<open>isinstance(data, type_map[expected_type])\<close>, or \<open>None\<close> when \<open>expected_type\<close> is not a
  key of \<open>type_map\<close>. In Python \<open>bool\<close> is a subclass of \<open>int\<close>.
\<close>

definition isinstance_of :: "pyval \<Rightarrow> string \<Rightarrow> bool option" where
  "isinstance_of data expected_type =
     (if expected_type = ''object'' then Some (case data of PDict _ \<Rightarrow> True | _ \<Rightarrow> False)
      else if expected_type = ''array'' then Some (case data of PList _ \<Rightarrow> True | _ \<Rightarrow> False)
      else if expected_type = ''string'' then Some (case data of PStr _ \<Rightarrow> True | _ \<Rightarrow> False)
      else if expected_type = ''number'' then
        Some (case data of PInt _ \<Rightarrow> True | PBool _ \<Rightarrow> True | PFloat _ \<Rightarrow> True | _ \<Rightarrow> False)
      else if expected_type = ''integer'' then
        Some (case data of PInt _ \<Rightarrow> True | PBool _ \<Rightarrow> True | _ \<Rightarrow> False)
      else if expected_type = ''boolean'' then Some (case data of PBool _ \<Rightarrow> True | _ \<Rightarrow> False)
      else if expected_type = ''null'' then Some (case data of PNone \<Rightarrow> True | _ \<Rightarrow> False)
      else None)"

text \<open>\<open>type(data).__name__\<close>\<close>

fun type_name :: "pyval \<Rightarrow> string" where
  "type_name PNone = ''NoneType''"
| "type_name (PBool _) = ''bool''"
| "type_name (PInt _) = ''int''"
| "type_name (PFloat _) = ''float''"
| "type_name (PStr _) = ''str''"
| "type_name (PList _) = ''list''"
| "type_name (PDict _) = ''dict''"

text \<open>The first half of \<open>_validate_schema\<close>: the \<open>type\<close> key.\<close>

definition check_type :: "pyval \<Rightarrow> string option \<Rightarrow> py_error + unit" where
  "check_type data ty =
     (case ty of
        None \<Rightarrow> Inr ()
      | Some expected_type \<Rightarrow>
          (case isinstance_of data expected_type of
             Some False \<Rightarrow> Inl (AssertionError
               [Txt (''Expected type '' @ expected_type @ '', got '' @ type_name data)])
           | _ \<Rightarrow> Inr ()))"

text \<open>
  \<open>_validate_schema\<close>; \<open>validate_properties\<close> is its loop over
  \<open>schema["properties"].items()\<close>, entered only when \<open>data\<close> is a \<open>dict\<close>.
\<close>

fun validate_schema :: "pyval \<Rightarrow> schema \<Rightarrow> py_error + unit"
  and validate_properties ::
    "pydict \<Rightarrow> string list option \<Rightarrow> (string \<times> schema) list \<Rightarrow> py_error + unit" where
  "validate_schema data (Schema ty props req) =
     (case check_type data ty of
        Inl e \<Rightarrow> Inl e
      | Inr _ \<Rightarrow>
          (case props of
             None \<Rightarrow> Inr ()
           | Some ps \<Rightarrow> (case data of PDict d \<Rightarrow> validate_properties d req ps | _ \<Rightarrow> Inr ())))"
| "validate_properties d req [] = Inr ()"
| "validate_properties d req ((key, value_schema) # rest) =
     (if (case req of None \<Rightarrow> False | Some names \<Rightarrow> key \<in> set names) \<and> map_of d key = None
      then Inl (AssertionError [Txt (''Required property '' @ sq @ key @ sq @ '' missing'')])
      else (case (case map_of d key of
                    None \<Rightarrow> Inr ()
                  | Some v \<Rightarrow> validate_schema v value_schema) of
              Inl e \<Rightarrow> Inl e
            | Inr _ \<Rightarrow> validate_properties d req rest))"

text \<open>
  \<open>assert_json_valid\<close>. \<open>json.loads\<close> belongs to the Python library: \<open>json_loads\<close> stands
  for it, giving the parsed value or the text of the \<open>JSONDecodeError\<close>. The test
  \<open>if schema:\<close> skips the validation for \<open>None\<close> and for the empty \<open>dict\<close>.
\<close>

definition assert_json_valid ::
  "(string \<Rightarrow> string + pyval) \<Rightarrow> string \<Rightarrow> schema option \<Rightarrow> py_error + unit" where
  "assert_json_valid json_loads output schema =
     (case json_loads output of
        Inl e \<Rightarrow> Inl (AssertionError [Txt (''Output is not valid JSON: '' @ e)])
      | Inr data \<Rightarrow>
          (case schema of
             None \<Rightarrow> Inr ()
           | Some sch \<Rightarrow> if sch = Schema None None None then Inr () else validate_schema data sch))"

subsection \<open>Grounding in source documents\<close>







subsection \<open>PII patterns\<close>

text \<open>
  The four patterns of \<open>assert_no_pii\<close>, each written as the pattern object it compiles
  to, in the order of the \<open>dict\<close>.
\<close>

definition upper_az :: citem where "upper_az = CRange (CHR ''A'') (CHR ''Z'')"
definition lower_az :: citem where "lower_az = CRange (CHR ''a'') (CHR ''z'')"
definition digit_09 :: citem where "digit_09 = CRange (CHR ''0'') (CHR ''9'')"

text \<open>\<^verbatim>\<open>\b[A-Za-z0-9._%+-]+@[A-Za-z0-9.-]+\.[A-Z|a-z]{2,}\b\<close>\<close>

definition email_pattern :: regex where
  "email_pattern = seqs
     [WordB,
      Plus (Cls [upper_az, lower_az, digit_09, CChar (CHR ''.''), CChar (CHR ''_''),
                 CChar (CHR ''%''), CChar (CHR ''+''), CChar (CHR ''-'')]),
      Lit (CHR ''@''),
      Plus (Cls [upper_az, lower_az, digit_09, CChar (CHR ''.''), CChar (CHR ''-'')]),
      Lit (CHR ''.''),
      Rep 2 None (Cls [upper_az, CChar (CHR ''|''), lower_az]),
      WordB]"

text \<open>\<^verbatim>\<open>\b\d{3}[-.]?\d{3}[-.]?\d{4}\b\<close>\<close>

definition phone_pattern :: regex where
  "phone_pattern = seqs
     [WordB,
      Rep 3 (Some 3) (Cls [CDigit]),
      Opt (Cls [CChar (CHR ''-''), CChar (CHR ''.'')]),
      Rep 3 (Some 3) (Cls [CDigit]),
      Opt (Cls [CChar (CHR ''-''), CChar (CHR ''.'')]),
      Rep 4 (Some 4) (Cls [CDigit]),
      WordB]"

text \<open>\<^verbatim>\<open>\b\d{3}-\d{2}-\d{4}\b\<close>\<close>

definition ssn_pattern :: regex where
  "ssn_pattern = seqs
     [WordB,
      Rep 3 (Some 3) (Cls [CDigit]),
      Lit (CHR ''-''),
      Rep 2 (Some 2) (Cls [CDigit]),
      Lit (CHR ''-''),
      Rep 4 (Some 4) (Cls [CDigit]),
      WordB]"

text \<open>\<^verbatim>\<open>\b\d{4}[-\s]?\d{4}[-\s]?\d{4}[-\s]?\d{4}\b\<close>\<close>

definition credit_card_pattern :: regex where
  "credit_card_pattern = seqs
     [WordB,
      Rep 4 (Some 4) (Cls [CDigit]),
      Opt (Cls [CChar (CHR ''-''), CSpace]),
      Rep 4 (Some 4) (Cls [CDigit]),
      Opt (Cls [CChar (CHR ''-''), CSpace]),
      Rep 4 (Some 4) (Cls [CDigit]),
      Opt (Cls [CChar (CHR ''-''), CSpace]),
      Rep 4 (Some 4) (Cls [CDigit]),
      WordB]"

definition pii_patterns :: "(string \<times> regex) list" where
  "pii_patterns =
     [(''email'', email_pattern), (''phone'', phone_pattern), (''ssn'', ssn_pattern),
      (''credit_card'', credit_card_pattern)]"

text \<open>The loop that fills \<open>found_pii\<close>.\<close>

definition found_pii :: "string \<Rightarrow> string list" where
  "found_pii output = map fst (filter (\<lambda>(pii_type, pattern). re_search pattern output) pii_patterns)"

definition assert_no_pii :: "string \<Rightarrow> py_error + unit" where
  "assert_no_pii output =
     (if found_pii output = [] then Inr ()
      else Inl (AssertionError
        [Txt (''PII detected in output: '' @ py_join '', '' (found_pii output) @ nl @
              ''Output: '' @ output)]))"

section \<open>The grounding ratio as the specification words it\<close>



section \<open>Example inputs\<close>

text \<open>The pattern \<^verbatim>\<open>.*test.*\<close>, registered twice with different responses.\<close>

definition test_pattern :: regex where
  "test_pattern =
     seqs [Star Dot, Lit (CHR ''t''), Lit (CHR ''e''), Lit (CHR ''s''), Lit (CHR ''t''), Star Dot]"

definition two_patterns :: MockLLM where
  "two_patterns =
     \<lparr>responses = [(MPattern test_pattern, MockResponse_content ''A''),
                   (MPattern test_pattern, MockResponse_content ''B'')],
      call_history = [], default_response = RStr ''Mock response''\<rparr>"

text \<open>The pattern \<^verbatim>\<open>test\<close>.\<close>

definition test_literal :: regex where
  "test_literal = seqs [Lit (CHR ''t''), Lit (CHR ''e''), Lit (CHR ''s''), Lit (CHR ''t'')]"

text \<open>
  A table of \<open>json.loads\<close> for the inputs used below: its values at \<^verbatim>\<open>{}\<close> and at
  \<^verbatim>\<open>{"a": 1}\<close>, and the text of the error it raises at \<^verbatim>\<open>not json\<close>.
\<close>

definition json_loads_sample :: "string \<Rightarrow> string + pyval" where
  "json_loads_sample s =
     (if s = ''{}'' then Inr (PDict [])
      else if s = ''{\"a\": 1}'' then Inr (PDict [(''a'', PInt 1)])
      else Inl ''Expecting value: line 1 column 1 (char 0)'')"

text \<open>
  The schemas \<^verbatim>\<open>{"type": "object", "required": ["a"]}\<close> and
  \<^verbatim>\<open>{"type": "object", "properties": {"b": {"type": "integer"}}, "required": ["a"]}\<close>.
\<close>

definition requires_a :: schema where
  "requires_a = Schema (Some ''object'') None (Some [''a''])"

definition requires_a_describes_b :: schema where
  "requires_a_describes_b =
     Schema (Some ''object'') (Some [(''b'', Schema (Some ''integer'') None None)]) (Some [''a''])"

text \<open>One user message whose content is a list of two text parts.\<close>

definition two_text_parts :: "pydict list" where
  "two_text_parts =
     [[(''role'', PStr ''user''),
       (''content'', PList [PDict [(''type'', PStr ''text''), (''text'', PStr ''hi'')],
                           PDict [(''type'', PStr ''text''), (''text'', PStr ''there'')]])]]"

section \<open>The matcher computes the matches\<close>

lemma relpowp_left: "(R ^^ Suc n) x z \<longleftrightarrow> (\<exists>y. R x y \<and> (R ^^ n) y z)"
  by (metis relpowp_Suc_E2 relpowp_Suc_I2)

lemma advances_relpowp:
  assumes "advances s R"
  shows "advances s (R ^^ n)"
proof (induction n)
  case 0
  show ?case by (simp add: advances_def)
next
  case (Suc n)
  show ?case
    unfolding advances_def
  proof (intro allI impI)
    fix i j assume "(R ^^ Suc n) i j"
    then obtain k where k: "(R ^^ n) i k" "R k j" by auto
    from Suc k(1) have 1: "i \<le> k \<and> (i < k \<longrightarrow> k \<le> length s)" by (simp add: advances_def)
    from assms k(2) have 2: "k \<le> j \<and> (k < j \<longrightarrow> j \<le> length s)" by (simp add: advances_def)
    from 1 2 show "i \<le> j \<and> (i < j \<longrightarrow> j \<le> length s)" by auto
  qed
qed

lemma advances_re_span: "advances s (re_span r s)"
proof (induction r)
  case (Seq a b)
  show ?case
    unfolding advances_def
  proof (intro allI impI)
    fix i j assume "re_span (Seq a b) s i j"
    then obtain k where k: "re_span a s i k" "re_span b s k j" by auto
    from Seq(1) k(1) have 1: "i \<le> k \<and> (i < k \<longrightarrow> k \<le> length s)" by (simp add: advances_def)
    from Seq(2) k(2) have 2: "k \<le> j \<and> (k < j \<longrightarrow> j \<le> length s)" by (simp add: advances_def)
    from 1 2 show "i \<le> j \<and> (i < j \<longrightarrow> j \<le> length s)" by auto
  qed
next
  case (Alt a b)
  then show ?case by (auto simp: advances_def)
next
  case (Rep lo hi r)
  show ?case
    unfolding advances_def
  proof (intro allI impI)
    fix i j assume "re_span (Rep lo hi r) s i j"
    then obtain n where "(re_span r s ^^ n) i j" by auto
    with advances_relpowp [OF Rep, of n]
    show "i \<le> j \<and> (i < j \<longrightarrow> j \<le> length s)" by (simp add: advances_def)
  qed
qed (auto simp: advances_def)

text \<open>Rounds that stay in place can be left out.\<close>

lemma drop_idle_rounds:
  assumes "advances s R"
  shows "(R ^^ n) p j \<Longrightarrow> \<exists>m\<le>n. ((\<lambda>i j. R i j \<and> i < j) ^^ m) p j"
proof (induction n arbitrary: p)
  case 0
  then show ?case by auto
next
  case (Suc n)
  from Suc.prems have "\<exists>q. R p q \<and> (R ^^ n) q j" by (simp only: relpowp_left)
  then obtain q where q: "R p q" "(R ^^ n) q j" by blast
  from Suc.IH [OF q(2)] obtain m where m: "m \<le> n" "((\<lambda>i j. R i j \<and> i < j) ^^ m) q j" by blast
  from assms q(1) have "p \<le> q" by (simp add: advances_def)
  then consider "p = q" | "p < q" by linarith
  then show ?case
  proof cases
    case 1
    with m show ?thesis by (intro exI [of _ m]) simp
  next
    case 2
    with q(1) m(2) have "((\<lambda>i j. R i j \<and> i < j) ^^ Suc m) p j"
      by (simp only: relpowp_left) blast
    with m(1) show ?thesis by (intro exI [of _ "Suc m"]) simp
  qed
qed

lemma strict_rounds_bounded:
  assumes "advances s R"
  shows "((\<lambda>i j. R i j \<and> i < j) ^^ m) p j \<Longrightarrow> p + m \<le> j \<and> (0 < m \<longrightarrow> j \<le> length s)"
proof (induction m arbitrary: j)
  case 0
  then show ?case by simp
next
  case (Suc m)
  from Suc.prems obtain q where q: "((\<lambda>i j. R i j \<and> i < j) ^^ m) p q" "R q j" "q < j" by auto
  from Suc.IH [OF q(1)] have "p + m \<le> q" by simp
  moreover from assms q(2,3) have "j \<le> length s" by (simp add: advances_def)
  ultimately show ?case using q(3) by simp
qed

lemma strict_rounds_are_rounds: "((\<lambda>i j. R i j \<and> i < j) ^^ m) p j \<Longrightarrow> (R ^^ m) p j"
proof (induction m arbitrary: j)
  case 0
  then show ?case by simp
next
  case (Suc m)
  then show ?case by auto
qed

lemma rounds_bounded:
  assumes "advances s R" and "(R ^^ n) p j"
  shows "\<exists>m\<le>length s. (R ^^ m) p j"
proof -
  from drop_idle_rounds [OF assms] obtain m where
    m: "((\<lambda>i j. R i j \<and> i < j) ^^ m) p j" by blast
  from strict_rounds_bounded [OF assms(1) m] have "m \<le> length s"
    by (cases m) auto
  with strict_rounds_are_rounds [OF m] show ?thesis by blast
qed

lemma set_steps_exact:
  "set (steps_exact f k ps) = {j. \<exists>p\<in>set ps. ((\<lambda>i j. j \<in> set (f i)) ^^ k) p j}"
proof (induction k arbitrary: ps)
  case 0
  show ?case by auto
next
  case (Suc k)
  have "set (steps_exact f (Suc k) ps) =
        {j. \<exists>q\<in>set (remdups (concat (map f ps))). ((\<lambda>i j. j \<in> set (f i)) ^^ k) q j}"
    by (simp only: steps_exact.simps Suc)
  also have "\<dots> = {j. \<exists>p\<in>set ps. ((\<lambda>i j. j \<in> set (f i)) ^^ Suc k) p j}"
    by (auto simp del: relpowp.simps(2) simp add: relpowp_left)
  finally show ?case .
qed

lemma set_steps_upto:
  "set (steps_upto f k ps) = {j. \<exists>p\<in>set ps. \<exists>n\<le>k. ((\<lambda>i j. j \<in> set (f i)) ^^ n) p j}"
proof (induction k arbitrary: ps)
  case 0
  show ?case by auto
next
  case (Suc k)
  have "set (steps_upto f (Suc k) ps) =
        set ps \<union> set (steps_upto f k (remdups (concat (map f ps))))"
    by simp
  also have "\<dots> = set ps \<union>
        {j. \<exists>q\<in>set (remdups (concat (map f ps))). \<exists>n\<le>k. ((\<lambda>i j. j \<in> set (f i)) ^^ n) q j}"
    by (simp only: Suc)
  also have "\<dots> =
        set ps \<union> {j. \<exists>p\<in>set ps. \<exists>n\<le>k. ((\<lambda>i j. j \<in> set (f i)) ^^ Suc n) p j}"
    by (auto simp del: relpowp.simps(2) simp add: relpowp_left)
  also have "\<dots> = {j. \<exists>p\<in>set ps. \<exists>n\<le>Suc k. ((\<lambda>i j. j \<in> set (f i)) ^^ n) p j}"
  proof (intro set_eqI iffI)
    fix j assume "j \<in> set ps \<union> {j. \<exists>p\<in>set ps. \<exists>n\<le>k. ((\<lambda>i j. j \<in> set (f i)) ^^ Suc n) p j}"
    then consider "j \<in> set ps"
      | p n where "p \<in> set ps" "n \<le> k" "((\<lambda>i j. j \<in> set (f i)) ^^ Suc n) p j" by blast
    then show "j \<in> {j. \<exists>p\<in>set ps. \<exists>n\<le>Suc k. ((\<lambda>i j. j \<in> set (f i)) ^^ n) p j}"
    proof cases
      case 1
      then have "\<exists>n\<le>Suc k. ((\<lambda>i j. j \<in> set (f i)) ^^ n) j j" by (intro exI [of _ 0]) simp
      with 1 show ?thesis by blast
    next
      case 2
      then have "\<exists>m\<le>Suc k. ((\<lambda>i j. j \<in> set (f i)) ^^ m) p j"
        by (intro exI [of _ "Suc n"]) simp
      with 2(1) show ?thesis by blast
    qed
  next
    fix j assume "j \<in> {j. \<exists>p\<in>set ps. \<exists>n\<le>Suc k. ((\<lambda>i j. j \<in> set (f i)) ^^ n) p j}"
    then obtain p n where pn: "p \<in> set ps" "n \<le> Suc k" "((\<lambda>i j. j \<in> set (f i)) ^^ n) p j"
      by blast
    show "j \<in> set ps \<union> {j. \<exists>p\<in>set ps. \<exists>n\<le>k. ((\<lambda>i j. j \<in> set (f i)) ^^ Suc n) p j}"
    proof (cases n)
      case 0
      with pn show ?thesis by simp
    next
      case (Suc n')
      with pn show ?thesis by auto
    qed
  qed
  finally show ?case .
qed

lemma relpowp_split: "(R ^^ (m + n)) i j \<longleftrightarrow> (\<exists>p. (R ^^ m) i p \<and> (R ^^ n) p j)"
  by (auto simp: relpowp_add)

lemma rep_positions:
  assumes adv: "advances s R"
    and wf: "case hi of None \<Rightarrow> True | Some h \<Rightarrow> lo \<le> h"
  shows "(\<exists>p. (R ^^ lo) i p \<and> (\<exists>n\<le>(case hi of None \<Rightarrow> length s | Some h \<Rightarrow> h - lo). (R ^^ n) p j))
     \<longleftrightarrow> (\<exists>m. lo \<le> m \<and> (case hi of None \<Rightarrow> True | Some h \<Rightarrow> m \<le> h) \<and> (R ^^ m) i j)"
proof
  assume "\<exists>p. (R ^^ lo) i p \<and> (\<exists>n\<le>(case hi of None \<Rightarrow> length s | Some h \<Rightarrow> h - lo). (R ^^ n) p j)"
  then obtain p n where pn: "(R ^^ lo) i p"
    "n \<le> (case hi of None \<Rightarrow> length s | Some h \<Rightarrow> h - lo)" "(R ^^ n) p j" by blast
  from pn(1,3) have "(R ^^ (lo + n)) i j" by (subst relpowp_split) blast
  moreover have "case hi of None \<Rightarrow> True | Some h \<Rightarrow> lo + n \<le> h"
    using pn(2) wf by (cases hi) auto
  ultimately show "\<exists>m. lo \<le> m \<and> (case hi of None \<Rightarrow> True | Some h \<Rightarrow> m \<le> h) \<and> (R ^^ m) i j"
    by (intro exI [of _ "lo + n"]) simp
next
  assume "\<exists>m. lo \<le> m \<and> (case hi of None \<Rightarrow> True | Some h \<Rightarrow> m \<le> h) \<and> (R ^^ m) i j"
  then obtain m where m: "lo \<le> m" "case hi of None \<Rightarrow> True | Some h \<Rightarrow> m \<le> h" "(R ^^ m) i j"
    by blast
  from m(1,3) have "(R ^^ (lo + (m - lo))) i j" by simp
  then obtain p where p: "(R ^^ lo) i p" "(R ^^ (m - lo)) p j"
    by (subst (asm) relpowp_split) blast
  show "\<exists>p. (R ^^ lo) i p \<and> (\<exists>n\<le>(case hi of None \<Rightarrow> length s | Some h \<Rightarrow> h - lo). (R ^^ n) p j)"
  proof (cases hi)
    case None
    from rounds_bounded [OF adv p(2)] obtain n where "n \<le> length s" "(R ^^ n) p j" by blast
    with p(1) None show ?thesis by auto
  next
    case (Some h)
    with m(2) have "m - lo \<le> h - lo" by simp
    with p Some show ?thesis by auto
  qed
qed

text \<open>
  The positions that \<open>re_ends\<close> lists are exactly the ends of the matches: the rounds of an
  unbounded repetition that \<open>re_ends\<close> leaves out reach nothing new.
\<close>

theorem re_ends_correct: "wf_regex r \<Longrightarrow> j \<in> set (re_ends r s i) \<longleftrightarrow> re_span r s i j"
proof (induction r arbitrary: i j)
  case (Seq a b)
  then show ?case by auto
next
  case (Alt a b)
  then show ?case by auto
next
  case (Rep lo hi r)
  from Rep.prems have wf: "case hi of None \<Rightarrow> True | Some h \<Rightarrow> lo \<le> h" and wr: "wf_regex r"
    by simp_all
  have R: "(\<lambda>i j. j \<in> set (re_ends r s i)) = re_span r s"
    using Rep.IH [OF wr] by (intro ext) simp
  have "j \<in> set (re_ends (Rep lo hi r) s i) \<longleftrightarrow>
        (\<exists>p. (re_span r s ^^ lo) i p \<and>
           (\<exists>n\<le>(case hi of None \<Rightarrow> length s | Some h \<Rightarrow> h - lo). (re_span r s ^^ n) p j))"
    by (simp add: set_steps_upto set_steps_exact R del: relpowp.simps)
  also have "\<dots> \<longleftrightarrow> re_span (Rep lo hi r) s i j"
    using rep_positions [where R = "re_span r s" and s = s and lo = lo and hi = hi and i = i
        and j = j, OF advances_re_span wf]
    by simp
  finally show ?case .
qed (auto simp: at_char_def list_ex_iff)

corollary re_match_iff: "wf_regex r \<Longrightarrow> re_match r s \<longleftrightarrow> (\<exists>j. re_span r s 0 j)"
proof -
  assume wf: "wf_regex r"
  have "re_match r s \<longleftrightarrow> (\<exists>j. j \<in> set (re_ends r s 0))"
    by (cases "re_ends r s 0") (auto simp: re_match_def)
  then show ?thesis by (simp add: re_ends_correct [OF wf])
qed

corollary re_search_iff:
  "wf_regex r \<Longrightarrow> re_search r s \<longleftrightarrow> (\<exists>i j. i \<le> length s \<and> re_span r s i j)"
proof -
  assume wf: "wf_regex r"
  have ne: "\<And>i. re_ends r s i \<noteq> [] \<longleftrightarrow> (\<exists>j. j \<in> set (re_ends r s i))"
    by (metis equals0I empty_iff set_empty)
  have "re_search r s \<longleftrightarrow> (\<exists>i. i < Suc (length s) \<and> re_ends r s i \<noteq> [])"
    by (auto simp add: re_search_def list_ex_iff simp del: upt_Suc)
  then have "re_search r s \<longleftrightarrow> (\<exists>i\<le>length s. \<exists>j. j \<in> set (re_ends r s i))"
    by (simp only: ne less_Suc_eq_le)
  then show ?thesis by (auto simp: re_ends_correct [OF wf])
qed

lemma wf_patterns:
  "wf_regex email_pattern" "wf_regex phone_pattern" "wf_regex ssn_pattern"
  "wf_regex credit_card_pattern" "wf_regex test_pattern" "wf_regex test_literal"
  by (simp_all add: email_pattern_def phone_pattern_def ssn_pattern_def credit_card_pattern_def
      test_pattern_def test_literal_def)

section \<open>The response resolver\<close>

text \<open>
  C6. \<open>reset\<close> brings the call count to 0 and leaves the registered matchers and the
  default response as they were.
\<close>

theorem reset_clears_history_only:
  "get_call_count (reset st) = 0 \<and> responses (reset st) = responses st \<and>
   default_response (reset st) = default_response st"
  by (simp add: reset_def get_call_count_def)

text \<open>
  C4. Every call of \<open>get_response\<close> appends exactly one record, holding the prompt and the
  keyword arguments, so the call count grows by one whatever the outcome: a match, the
  default response, or an exception. The third part is the mock after a call whose first
  matcher is a callable that raises \<open>e\<close>: the exception escapes and the record is there.
\<close>

theorem get_response_records_one_call:
  "call_history (fst (get_response p kw st)) =
     call_history st @ [\<lparr>call_prompt = p, call_kwargs = kw\<rparr>] \<and>
   get_call_count (fst (get_response p kw st)) = get_call_count st + 1 \<and>
   get_response p kw (st\<lparr>responses := (MFunction (\<lambda>_ _. Inl e), r) # rest\<rparr>) =
     (st\<lparr>responses := (MFunction (\<lambda>_ _. Inl e), r) # rest,
         call_history := call_history st @ [\<lparr>call_prompt = p, call_kwargs = kw\<rparr>]\<rparr>, Inl e)"
  by (simp add: get_response_def get_call_count_def Let_def)

subsection \<open>First match wins\<close>





subsection \<open>Pattern matchers\<close>

text \<open>
  C5. A pattern matcher is satisfied exactly when \<open>pattern.match\<close> finds a match, that
  is when the pattern matches a piece of the prompt that starts at position 0; the scan
  then returns its response, and otherwise goes on with the matchers after it. A pattern
  that matches only pieces starting at a later position \<open>i\<close> does not satisfy the matcher.
  Characters are compared as they are, so the case matters.
\<close>

theorem pattern_matcher_anchored_at_start:
  "matcher_satisfied (MPattern r) (PStr s) kw = Inr (re_match r s) \<and>
   (wf_regex r \<longrightarrow> (re_match r s \<longleftrightarrow> (\<exists>j. re_span r s 0 j))) \<and>
   snd (get_response (PStr s) kw (st\<lparr>responses := (MPattern r, resp) # rest\<rparr>)) =
     (if re_match r s then Inr resp
      else snd (get_response (PStr s) kw (st\<lparr>responses := rest\<rparr>))) \<and>
   (wf_regex r \<and> \<not> (\<exists>j. re_span r s 0 j) \<and> 0 < i \<and> re_span r s i k
      \<longrightarrow> matcher_satisfied (MPattern r) (PStr s) kw = Inr False)"
  using re_match_iff [of r s]
  by (simp add: get_response_def Let_def split: sum.splits option.splits)

theorem pattern_matcher_anchored_at_start_witness:
  "re_span test_literal ''this is a test'' 10 14 \<and>
   \<not> re_match test_literal ''this is a test'' \<and>
   matcher_satisfied (MPattern test_literal) (PStr ''this is a test'') [] = Inr False \<and>
   matcher_satisfied (MPattern test_literal) (PStr ''test this'') [] = Inr True \<and>
   matcher_satisfied (MPattern test_literal) (PStr ''Test this'') [] = Inr False"
proof -
  have wf: "wf_regex test_literal" by (simp add: test_literal_def)
  have a: "\<not> re_match test_literal ''this is a test''" by code_simp
  then have a': "\<not> (\<exists>j. re_span test_literal ''this is a test'' 0 j)"
    using re_match_iff [OF wf] by simp
  have "14 \<in> set (re_ends test_literal ''this is a test'' 10)" by code_simp
  then have b: "re_span test_literal ''this is a test'' 10 14"
    using re_ends_correct [OF wf] by simp
  have c: "matcher_satisfied (MPattern test_literal) (PStr ''this is a test'') [] = Inr False"
    using pattern_matcher_anchored_at_start
      [of test_literal "''this is a test''" "[]" _ _ _ 10 14] wf a' b
    by simp
  have d: "matcher_satisfied (MPattern test_literal) (PStr ''test this'') [] = Inr True"
    by code_simp
  have e: "matcher_satisfied (MPattern test_literal) (PStr ''Test this'') [] = Inr False"
    by code_simp
  show ?thesis using a b c d e by simp
qed

section \<open>The assertions\<close>

lemma py_in_empty: "py_in [] s"
  by (induction s) simp_all

text \<open>
  C10. With the empty string as \<open>unexpected\<close>, \<open>assert_not_contains\<close> raises for every
  output and either value of \<open>case_sensitive\<close>: the empty string is in every string.
\<close>

theorem assert_not_contains_empty_raises:
  "assert_not_contains output [] case_sensitive =
     Inl (AssertionError
       [Txt (''Unexpected '' @ sq @ sq @ '' found in output.'' @ nl @ ''Output: '' @
             (if case_sensitive then output else py_lower output))])"
  by (simp add: assert_not_contains_def Let_def py_in_empty py_lower_def)

subsection \<open>PII\<close>

lemma found_pii_iff:
  "n \<in> set (found_pii output) \<longleftrightarrow> (\<exists>p. (n, p) \<in> set pii_patterns \<and> re_search p output)"
  by (force simp: found_pii_def)

lemma found_pii_empty_iff:
  "found_pii output = [] \<longleftrightarrow> (\<forall>(n, p) \<in> set pii_patterns. \<not> re_search p output)"
  by (auto simp: found_pii_def filter_empty_conv)

lemma pii_search_anywhere:
  "(n, p) \<in> set pii_patterns \<Longrightarrow>
   re_search p t \<longleftrightarrow> (\<exists>i j. i \<le> length t \<and> re_span p t i j)"
proof -
  assume "(n, p) \<in> set pii_patterns"
  then have "wf_regex p" using wf_patterns by (auto simp: pii_patterns_def)
  then show ?thesis by (rule re_search_iff)
qed

text \<open>
  C7. \<open>assert_no_pii\<close> returns normally exactly when none of the four patterns (\<open>email\<close>,
  \<open>phone\<close>, \<open>ssn\<close>, \<open>credit_card\<close>) has a match anywhere in the output, that is a match
  of some piece of it. Otherwise it raises with a message that lists the categories
  found, and a category is listed exactly when its own pattern has a match, whatever the
  others do. On \<open>Email me at a@b.com\<close> it raises naming \<open>email\<close>; on
  \<open>nothing sensitive here\<close> it returns normally.
\<close>

theorem assert_no_pii_lists_matches:
  "((assert_no_pii output = Inr ()) \<longleftrightarrow> (\<forall>(n, p) \<in> set pii_patterns. \<not> re_search p output)) \<and>
   (\<forall>x \<in> set pii_patterns.
      re_search (snd x) output \<longleftrightarrow> (\<exists>i j. i \<le> length output \<and> re_span (snd x) output i j)) \<and>
   (assert_no_pii output \<noteq> Inr () \<longrightarrow>
      assert_no_pii output =
        Inl (AssertionError
          [Txt (''PII detected in output: '' @ py_join '', '' (found_pii output) @ nl @
                ''Output: '' @ output)]) \<and>
      (\<forall>n. n \<in> set (found_pii output) \<longleftrightarrow>
         (\<exists>p. (n, p) \<in> set pii_patterns \<and> re_search p output))) \<and>
   assert_no_pii ''Email me at a@b.com'' =
     Inl (AssertionError
       [Txt (''PII detected in output: email'' @ nl @ ''Output: Email me at a@b.com'')]) \<and>
   assert_no_pii ''nothing sensitive here'' = Inr ()"
proof (intro conjI)
  show "(assert_no_pii output = Inr ()) \<longleftrightarrow> (\<forall>(n, p) \<in> set pii_patterns. \<not> re_search p output)"
    by (simp add: assert_no_pii_def found_pii_empty_iff)
  show "\<forall>x \<in> set pii_patterns.
      re_search (snd x) output \<longleftrightarrow> (\<exists>i j. i \<le> length output \<and> re_span (snd x) output i j)"
  proof
    fix x assume "x \<in> set pii_patterns"
    then have "(fst x, snd x) \<in> set pii_patterns" by simp
    then show "re_search (snd x) output \<longleftrightarrow>
        (\<exists>i j. i \<le> length output \<and> re_span (snd x) output i j)"
      by (rule pii_search_anywhere)
  qed
  show "assert_no_pii output \<noteq> Inr () \<longrightarrow>
      assert_no_pii output =
        Inl (AssertionError
          [Txt (''PII detected in output: '' @ py_join '', '' (found_pii output) @ nl @
                ''Output: '' @ output)]) \<and>
      (\<forall>n. n \<in> set (found_pii output) \<longleftrightarrow>
         (\<exists>p. (n, p) \<in> set pii_patterns \<and> re_search p output))"
    by (simp add: assert_no_pii_def found_pii_iff)
  show "assert_no_pii ''Email me at a@b.com'' =
     Inl (AssertionError
       [Txt (''PII detected in output: email'' @ nl @ ''Output: Email me at a@b.com'')])"
    by code_simp
  show "assert_no_pii ''nothing sensitive here'' = Inr ()"
    by code_simp
qed

theorem assert_no_pii_lists_matches_witness:
  "assert_no_pii ''555-123-4567 123-45-6789'' =
     Inl (AssertionError
       [Txt (''PII detected in output: phone, ssn'' @ nl @ ''Output: 555-123-4567 123-45-6789'')])"
proof -
  have f: "found_pii ''555-123-4567 123-45-6789'' = [''phone'', ''ssn'']"
    by code_simp
  then have "assert_no_pii ''555-123-4567 123-45-6789'' \<noteq> Inr ()"
    by (simp add: assert_no_pii_def)
  with assert_no_pii_lists_matches [of "''555-123-4567 123-45-6789''"]
  have "assert_no_pii ''555-123-4567 123-45-6789'' =
        Inl (AssertionError
          [Txt (''PII detected in output: '' @
                py_join '', '' (found_pii ''555-123-4567 123-45-6789'') @ nl @
                ''Output: '' @ ''555-123-4567 123-45-6789'')])"
    by blast
  then show ?thesis by (simp add: f)
qed

subsection \<open>Grounding\<close>















subsection \<open>Similarity\<close>

lemma py_lower_char_idem: "py_lower_char (py_lower_char c) = py_lower_char c"
proof -
  have b: "(of_char c :: nat) < 256" by simp
  show ?thesis
    using b by (auto simp: py_lower_char_def Let_def)
qed

lemma py_lower_idem: "py_lower (py_lower s) = py_lower s"
  by (induction s) (simp_all add: py_lower_def py_lower_char_idem)

lemma word_set_lower: "word_set (py_lower s) = word_set s"
  by (simp add: word_set_def py_lower_idem)

lemma calculate_similarity_lower:
  "calculate_similarity (py_lower a) (py_lower b) = calculate_similarity a b"
  by (simp add: calculate_similarity_def word_set_lower)




subsection \<open>JSON\<close>

text \<open>
  What \<open>assert_json_valid\<close> does as described: a parse error is reported with its text, a
  parsed output passes without a schema, and a required property that is also listed under
  \<open>properties\<close> and is absent from the object raises.
\<close>

lemma assert_json_valid_parse_error:
  "json_loads output = Inl e \<Longrightarrow>
   assert_json_valid json_loads output schema =
     Inl (AssertionError [Txt (''Output is not valid JSON: '' @ e)])"
  by (simp add: assert_json_valid_def)

lemma assert_json_valid_no_schema:
  "json_loads output = Inr data \<Longrightarrow> assert_json_valid json_loads output None = Inr ()"
  by (simp add: assert_json_valid_def)

lemma validate_properties_required_missing:
  "key \<in> fst ` set ps \<Longrightarrow> key \<in> set names \<Longrightarrow> map_of d key = None \<Longrightarrow>
   \<exists>e. validate_properties d (Some names) ps = Inl e"
proof (induction ps)
  case Nil
  then show ?case by simp
next
  case (Cons x ps)
  obtain k vs where x: "x = (k, vs)" by (cases x)
  show ?case
  proof (cases "k = key")
    case True
    with Cons.prems x show ?thesis by simp
  next
    case False
    with Cons.prems x have "key \<in> fst ` set ps" by auto
    with Cons have "\<exists>e. validate_properties d (Some names) ps = Inl e" by blast
    with x show ?thesis by (auto split: sum.splits option.splits)
  qed
qed

lemma validate_properties_first_required_missing:
  "key \<in> set names \<Longrightarrow> map_of d key = None \<Longrightarrow>
   validate_properties d (Some names) ((key, vs) # rest) =
     Inl (AssertionError [Txt (''Required property '' @ sq @ key @ sq @ '' missing'')])"
  by simp

lemma assert_json_valid_examples:
  "assert_json_valid json_loads_sample ''{\"a\": 1}'' None = Inr () \<and>
   assert_json_valid json_loads_sample ''not json'' None =
     Inl (AssertionError
       [Txt ''Output is not valid JSON: Expecting value: line 1 column 1 (char 0)''])"
  by (simp add: assert_json_valid_def json_loads_sample_def)

text \<open>
  C8. A name under \<open>required\<close> is looked at only inside the loop over \<open>properties\<close>. With
  the schema \<^verbatim>\<open>{"type": "object", "required": ["a"]}\<close> the output \<^verbatim>\<open>{}\<close> passes although
  \<open>a\<close> is missing, and so it does when \<open>properties\<close> describes another name only.
\<close>

theorem required_outside_properties_not_checked:
  "validate_schema (PDict []) requires_a = Inr () \<and>
   assert_json_valid json_loads_sample ''{}'' (Some requires_a) = Inr () \<and>
   assert_json_valid json_loads_sample ''{}'' (Some requires_a_describes_b) = Inr ()"
  by (simp add: requires_a_def requires_a_describes_b_def assert_json_valid_def
      json_loads_sample_def check_type_def isinstance_of_def)

section \<open>The provider mocks\<close>

lemma openai_string_content:
  "last_user messages = Some msg \<Longrightarrow> map_of msg ''content'' = Some (PStr s) \<Longrightarrow>
   ''prompt'' \<notin> fst ` set kw \<Longrightarrow> ''self'' \<notin> fst ` set kw \<Longrightarrow>
   call_history (fst (openai_create messages kw st)) =
     call_history st @ [\<lparr>call_prompt = PStr s, call_kwargs = kw\<rparr>]"
  by (simp add: openai_create_def call_get_response_def get_response_def openai_user_message_def
      get_or_empty_def Let_def split: sum.splits option.splits)

lemma anthropic_string_content:
  "last_user messages = Some msg \<Longrightarrow> map_of msg ''content'' = Some (PStr s) \<Longrightarrow>
   ''prompt'' \<notin> fst ` set kw \<Longrightarrow> ''self'' \<notin> fst ` set kw \<Longrightarrow>
   call_history (fst (anthropic_create messages kw st)) =
     call_history st @ [\<lparr>call_prompt = PStr s, call_kwargs = kw\<rparr>]"
  by (simp add: anthropic_create_def call_get_response_def get_response_def
      anthropic_user_message_def get_or_empty_def Let_def split: sum.splits option.splits)

lemma prompt_keyword_collides:
  "''prompt'' \<in> fst ` set kw \<Longrightarrow>
   openai_create messages kw st = (st, Inl (TypeError ''got multiple values for argument'')) \<and>
   (anthropic_user_message messages = Inr p \<longrightarrow>
      anthropic_create messages kw st = (st, Inl (TypeError ''got multiple values for argument'')))"
  by (simp add: openai_create_def anthropic_create_def call_get_response_def)

text \<open>
  C9. For a user message whose content is a list of text parts, the Anthropic mock hands
  the texts joined by single spaces to \<open>get_response\<close>; the OpenAI mock hands over the
  list itself, which no exact matcher equals and on which a pattern matcher raises
  \<open>TypeError\<close>. With a string content both mocks pass the string and the keyword
  arguments on unchanged.
\<close>

theorem openai_passes_list_content_unjoined:
  "call_history (fst (openai_create two_text_parts [] MockLLM_init)) =
     [\<lparr>call_prompt = PList [PDict [(''type'', PStr ''text''), (''text'', PStr ''hi'')],
                             PDict [(''type'', PStr ''text''), (''text'', PStr ''there'')]],
       call_kwargs = []\<rparr>] \<and>
   call_history (fst (anthropic_create two_text_parts [] MockLLM_init)) =
     [\<lparr>call_prompt = PStr ''hi there'', call_kwargs = []\<rparr>] \<and>
   snd (openai_create two_text_parts [] two_patterns) =
     Inl (TypeError ''expected string or bytes-like object'')"
  by (simp add: openai_create_def anthropic_create_def two_text_parts_def MockLLM_init_def
      call_get_response_def get_response_def openai_user_message_def anthropic_user_message_def
      last_user_def get_or_empty_def join_values_def two_patterns_def Let_def)

end
